theory Spec2Isabelle
  imports Main
begin

section \<open>Data model of the maintenance-request router\<close>

text \<open>
  The router of the backend (the revision with the two preferred windows and the per-stage
  timestamps) is embedded here. A JavaScript \<open>Date\<close> is an instant in milliseconds since the
  epoch; a nullable column is an \<open>option\<close>; the table of requests is a map from the primary
  key to the row.
\<close>

type_synonym instant = int

datatype RequestStatus =
  in_queue | viewed | maintenance_requested | implementing_actions | completed

type_synonym PriorityValue = string

datatype Role = tenant | manager | admin

datatype UpdatedByRole = upd_tenant | upd_manager | upd_system

definition statusPipeline :: "RequestStatus list" where
  "statusPipeline = [in_queue, viewed, maintenance_requested, implementing_actions, completed]"

definition allowedStatusValues :: "RequestStatus list" where
  "allowedStatusValues = statusPipeline"

definition allowedPriorities :: "PriorityValue list" where
  "allowedPriorities = [''low'', ''normal'', ''high'', ''emergency'']"

definition allowedWindowOptions :: "string list" where
  "allowedWindowOptions =
     [''08:00-10:00'', ''09:00-11:00'', ''10:00-12:00'', ''11:00-13:00'',
      ''12:00-14:00'', ''13:00-15:00'', ''14:00-16:00'', ''15:00-17:00'']"

text \<open>The wire form of a status, as the request body and the JSON of a row carry it.\<close>

fun statusName :: "RequestStatus \<Rightarrow> string" where
  "statusName in_queue = ''in_queue''"
| "statusName viewed = ''viewed''"
| "statusName maintenance_requested = ''maintenance_requested''"
| "statusName implementing_actions = ''implementing_actions''"
| "statusName completed = ''completed''"

text \<open>
  \<open>allowedStatusValues.includes(status)\<close> on the string of the body: the member of the
  enumeration with that wire form, if there is one.
\<close>

definition decodeStatus :: "string \<Rightarrow> RequestStatus option" where
  "decodeStatus s = find (\<lambda>v. statusName v = s) allowedStatusValues"

text \<open>\<open>Array.prototype.indexOf\<close>: the first position of the element, or \<open>-1\<close>.\<close>

fun indexOfFrom :: "'a list \<Rightarrow> 'a \<Rightarrow> int \<Rightarrow> int" where
  "indexOfFrom [] x i = - 1"
| "indexOfFrom (y # ys) x i = (if y = x then i else indexOfFrom ys x (i + 1))"

definition indexOf :: "'a list \<Rightarrow> 'a \<Rightarrow> int" where
  "indexOf xs x = indexOfFrom xs x 0"

text \<open>The operator \<open>a ?? b\<close>.\<close>

definition nullish :: "'a option \<Rightarrow> 'a \<Rightarrow> 'a" where
  "nullish a b = (case a of Some v \<Rightarrow> v | None \<Rightarrow> b)"

text \<open>\<open>!s\<close> for an optional string: undefined and the empty string are falsy.\<close>

definition falsy :: "string option \<Rightarrow> bool" where
  "falsy s = (case s of None \<Rightarrow> True | Some v \<Rightarrow> v = [])"

record user =
  uid :: nat
  role :: Role

record request =
  rid :: nat
  unit_no :: string
  category :: string
  description :: string
  phone :: string
  priority :: PriorityValue
  preferredWindow1 :: string
  preferredWindow2 :: "string option"
  accessInstructions :: "string option"
  tenantId :: nat
  status :: RequestStatus
  lastUpdatedByRole :: UpdatedByRole
  createdAt :: "instant option"
  inQueueAt :: "instant option"
  viewedAt :: "instant option"
  maintenanceRequestedAt :: "instant option"
  implementingActionsAt :: "instant option"
  completedAt :: "instant option"

text \<open>
  The table's \<open>updatedAt\<close> column is not a field of the record: no handler reads or sets it,
  the persistence layer rewrites it on every update. What is stated below about a row is about
  the columns listed above.
\<close>

record body =
  b_unit :: "string option"
  b_category :: "string option"
  b_description :: "string option"
  b_phone :: "string option"
  b_priority :: "string option"
  b_preferredWindow1 :: "string option"
  b_preferredWindow2 :: "string option"
  b_accessInstructions :: "string option"

type_synonym db = "nat \<rightharpoonup> request"

text \<open>
  Every response of the router that is not a row: the HTTP status and the message are those of
  the source.
\<close>

datatype error =
    OnlyTenantsError \<comment> \<open>403, Only tenants can perform this action\<close>
  | OnlyManagersError \<comment> \<open>403, Only managers can perform this action\<close>
  | NotFoundError \<comment> \<open>404, Request not found\<close>
  | InvalidStatusError \<comment> \<open>400, Invalid status\<close>
  | OutOfOrderTransitionError \<comment> \<open>400, Status must be updated in order: ...\<close>
  | InvalidPriorityError \<comment> \<open>400, Invalid priority\<close>
  | RequiredFieldsError \<comment> \<open>400, unit, category, description, and phone are required\<close>
  | Window1Error \<comment> \<open>400, preferredWindow1 is required and must be a valid 2-hour window\<close>
  | Window2Error \<comment> \<open>400, preferredWindow2 must be a valid 2-hour window\<close>
  | SameWindowsError \<comment> \<open>400, Preferred windows must be different\<close>
  | FailedError \<comment> \<open>500, the catch block of a handler\<close>

fun httpStatus :: "error \<Rightarrow> nat" where
  "httpStatus OnlyTenantsError = 403"
| "httpStatus OnlyManagersError = 403"
| "httpStatus NotFoundError = 404"
| "httpStatus FailedError = 500"
| "httpStatus _ = 400"

text \<open>The spec's \<open>ForbiddenError\<close>: a response with status 403.\<close>

definition isForbiddenError :: "error + request \<Rightarrow> bool" where
  "isForbiddenError resp = (case resp of Inl e \<Rightarrow> httpStatus e = 403 | Inr _ \<Rightarrow> False)"

section \<open>The handlers\<close>

definition ensureTenant :: "user option \<Rightarrow> user option" where
  "ensureTenant u =
     (case u of None \<Rightarrow> None
      | Some usr \<Rightarrow> if role usr \<noteq> tenant then None else Some usr)"

definition ensureManager :: "user option \<Rightarrow> user option" where
  "ensureManager u =
     (case u of None \<Rightarrow> None
      | Some usr \<Rightarrow> if role usr \<noteq> manager \<and> role usr \<noteq> admin then None else Some usr)"

definition prioritySafe :: "string option \<Rightarrow> PriorityValue" where
  "prioritySafe p =
     (if \<not> falsy p \<and> the p \<in> set allowedPriorities then the p else ''normal'')"

text \<open>
  \<open>router.post("/")\<close>. \<open>now\<close> is the handler's \<open>new Date()\<close>; \<open>newId\<close> and \<open>dbNow\<close> are the
  primary key and the \<open>createdAt\<close> default that the database gives the new row. An insert
  under a key that is taken throws, which the catch block answers with 500.
\<close>

definition createRequest ::
  "user option \<Rightarrow> body \<Rightarrow> instant \<Rightarrow> nat \<Rightarrow> instant \<Rightarrow> db \<Rightarrow> (error + request) \<times> db" where
  "createRequest u b now newId dbNow d =
     (case ensureTenant u of
        None \<Rightarrow> (Inl OnlyTenantsError, d)
      | Some usr \<Rightarrow>
          if falsy (b_unit b) \<or> falsy (b_category b) \<or> falsy (b_description b)
             \<or> falsy (b_phone b)
          then (Inl RequiredFieldsError, d)
          else
            let w1 = b_preferredWindow1 b; w2 = b_preferredWindow2 b in
            if falsy w1 \<or> the w1 \<notin> set allowedWindowOptions then (Inl Window1Error, d)
            else if \<not> falsy w2 \<and> the w2 \<notin> set allowedWindowOptions
              then (Inl Window2Error, d)
            else if \<not> falsy w1 \<and> \<not> falsy w2 \<and> w1 = w2 then (Inl SameWindowsError, d)
            else if newId \<in> dom d then (Inl FailedError, d)
            else
              let r = \<lparr> rid = newId,
                        unit_no = the (b_unit b),
                        category = the (b_category b),
                        description = the (b_description b),
                        phone = the (b_phone b),
                        priority = prioritySafe (b_priority b),
                        preferredWindow1 = the w1,
                        preferredWindow2 = (if falsy w2 then None else w2),
                        accessInstructions =
                          (if falsy (b_accessInstructions b) then None
                           else b_accessInstructions b),
                        tenantId = uid usr,
                        status = in_queue,
                        lastUpdatedByRole = upd_tenant,
                        createdAt = Some dbNow,
                        inQueueAt = Some now,
                        viewedAt = None,
                        maintenanceRequestedAt = None,
                        implementingActionsAt = None,
                        completedAt = None \<rparr>
              in (Inr r, d(newId \<mapsto> r)))"

text \<open>
  The \<open>data\<close> object of \<open>router.patch("/:id/close")\<close> merged into the existing row, as
  \<open>prisma.request.update\<close> does.
\<close>

definition closeData :: "instant \<Rightarrow> request \<Rightarrow> request" where
  "closeData now existing =
     (let d0 = existing\<lparr> status := completed, lastUpdatedByRole := upd_tenant \<rparr>;
          d1 = (if inQueueAt existing = None
                then d0\<lparr> inQueueAt := Some (nullish (createdAt existing) now) \<rparr> else d0);
          d2 = (if viewedAt existing = None \<and> status existing \<noteq> in_queue
                then d1\<lparr> viewedAt := Some now \<rparr> else d1);
          d3 = (if maintenanceRequestedAt existing = None
                   \<and> indexOf statusPipeline (status existing)
                       \<ge> indexOf statusPipeline maintenance_requested
                then d2\<lparr> maintenanceRequestedAt :=
                           Some (nullish (maintenanceRequestedAt existing) now) \<rparr>
                else d2);
          d4 = (if implementingActionsAt existing = None
                   \<and> indexOf statusPipeline (status existing)
                       \<ge> indexOf statusPipeline implementing_actions
                then d3\<lparr> implementingActionsAt :=
                           Some (nullish (implementingActionsAt existing) now) \<rparr>
                else d3)
      in d4\<lparr> completedAt := Some (nullish (completedAt existing) now) \<rparr>)"

text \<open>\<open>router.patch("/:id/close")\<close>: the tenant closes a request of their own.\<close>

definition closeEarly :: "user option \<Rightarrow> nat \<Rightarrow> instant \<Rightarrow> db \<Rightarrow> (error + request) \<times> db" where
  "closeEarly u i now d =
     (case ensureTenant u of
        None \<Rightarrow> (Inl OnlyTenantsError, d)
      | Some usr \<Rightarrow>
          (case d i of
             None \<Rightarrow> (Inl NotFoundError, d)
           | Some existing \<Rightarrow>
               if tenantId existing \<noteq> uid usr then (Inl NotFoundError, d)
               else if status existing = completed then (Inr existing, d)
               else let updated = closeData now existing
                    in (Inr updated, d(i \<mapsto> updated))))"

text \<open>The \<open>data\<close> object of \<open>router.patch("/:id/status")\<close> merged into the existing row.\<close>

definition statusData :: "RequestStatus \<Rightarrow> instant \<Rightarrow> request \<Rightarrow> request" where
  "statusData st now existing =
     (let d0 = existing\<lparr> status := st, lastUpdatedByRole := upd_manager \<rparr>;
          d1 = (if inQueueAt existing = None
                then d0\<lparr> inQueueAt := Some (nullish (createdAt existing) now) \<rparr> else d0)
      in case st of
           in_queue \<Rightarrow>
             if inQueueAt existing = None then d1\<lparr> inQueueAt := Some now \<rparr> else d1
         | viewed \<Rightarrow>
             if viewedAt existing = None then d1\<lparr> viewedAt := Some now \<rparr> else d1
         | maintenance_requested \<Rightarrow>
             if maintenanceRequestedAt existing = None
             then d1\<lparr> maintenanceRequestedAt := Some now \<rparr> else d1
         | implementing_actions \<Rightarrow>
             if implementingActionsAt existing = None
             then d1\<lparr> implementingActionsAt := Some now \<rparr> else d1
         | completed \<Rightarrow>
             if completedAt existing = None then d1\<lparr> completedAt := Some now \<rparr> else d1)"

text \<open>\<open>router.patch("/:id/status")\<close>: the manager moves a request along the pipeline.\<close>

definition advanceStatus ::
  "user option \<Rightarrow> nat \<Rightarrow> string option \<Rightarrow> instant \<Rightarrow> db \<Rightarrow> (error + request) \<times> db" where
  "advanceStatus u i bodyStatus now d =
     (case ensureManager u of
        None \<Rightarrow> (Inl OnlyManagersError, d)
      | Some usr \<Rightarrow>
          (case (if falsy bodyStatus then None else decodeStatus (the bodyStatus)) of
             None \<Rightarrow> (Inl InvalidStatusError, d)
           | Some st \<Rightarrow>
               (case d i of
                  None \<Rightarrow> (Inl NotFoundError, d)
                | Some existing \<Rightarrow>
                    let currentIndex = indexOf statusPipeline (status existing);
                        nextIndex = indexOf statusPipeline st
                    in if st \<noteq> status existing \<and> nextIndex \<noteq> currentIndex + 1
                       then (Inl OutOfOrderTransitionError, d)
                       else let updated = statusData st now existing
                            in (Inr updated, d(i \<mapsto> updated)))))"

text \<open>
  \<open>router.patch("/:id/priority")\<close>. The handler updates without reading first, so an unknown
  id makes the update throw and the catch block answers with 500.
\<close>

definition updatePriority ::
  "user option \<Rightarrow> nat \<Rightarrow> string option \<Rightarrow> db \<Rightarrow> (error + request) \<times> db" where
  "updatePriority u i bodyPriority d =
     (case ensureManager u of
        None \<Rightarrow> (Inl OnlyManagersError, d)
      | Some usr \<Rightarrow>
          if falsy bodyPriority \<or> the bodyPriority \<notin> set allowedPriorities
          then (Inl InvalidPriorityError, d)
          else
            (case d i of
               None \<Rightarrow> (Inl FailedError, d)
             | Some existing \<Rightarrow>
                 let updated = existing\<lparr> priority := the bodyPriority,
                                         lastUpdatedByRole := upd_manager \<rparr>
                 in (Inr updated, d(i \<mapsto> updated))))"

section \<open>Stage timestamps\<close>

text \<open>The timestamp column of a pipeline stage.\<close>

fun stageAt :: "RequestStatus \<Rightarrow> request \<Rightarrow> instant option" where
  "stageAt in_queue r = inQueueAt r"
| "stageAt viewed r = viewedAt r"
| "stageAt maintenance_requested r = maintenanceRequestedAt r"
| "stageAt implementing_actions r = implementingActionsAt r"
| "stageAt completed r = completedAt r"

section \<open>Sequences of calls\<close>

text \<open>
  One call of a handler with everything it reads: the authenticated user, the path and body
  parameters, and the clock reading of its \<open>new Date()\<close>. The priority handler reads no clock.
\<close>

datatype call =
    Create "user option" body instant nat instant
  | Advance "user option" nat "string option" instant
  | Close "user option" nat instant
  | SetPriority "user option" nat "string option"

fun perform :: "call \<Rightarrow> db \<Rightarrow> (error + request) \<times> db" where
  "perform (Create u b now newId dbNow) d = createRequest u b now newId dbNow d"
| "perform (Advance u i s now) d = advanceStatus u i s now d"
| "perform (Close u i now) d = closeEarly u i now d"
| "perform (SetPriority u i p) d = updatePriority u i p d"

fun run :: "call list \<Rightarrow> db \<Rightarrow> db" where
  "run [] d = d"
| "run (c # cs) d = run cs (snd (perform c d))"


text \<open>The clock reading of a call, for the handlers that take one.\<close>

fun readsClock :: "call \<Rightarrow> instant option" where
  "readsClock (Create u b now newId dbNow) = Some now"
| "readsClock (Advance u i s now) = Some now"
| "readsClock (Close u i now) = Some now"
| "readsClock (SetPriority u i p) = None"

text \<open>The calls of a sequence read a clock that does not run backwards, starting at \<open>t\<close>.\<close>

fun chronological :: "instant \<Rightarrow> call list \<Rightarrow> bool" where
  "chronological t [] = True"
| "chronological t (c # cs) =
     (case readsClock c of
        None \<Rightarrow> chronological t cs
      | Some now \<Rightarrow> t \<le> now \<and> chronological now cs)"

section \<open>Invariants\<close>



text \<open>Exactly the stages up to the status have a timestamp.\<close>

definition exact :: "request \<Rightarrow> bool" where
  "exact r =
     (case status r of
        in_queue \<Rightarrow>
          inQueueAt r \<noteq> None \<and> viewedAt r = None \<and> maintenanceRequestedAt r = None
          \<and> implementingActionsAt r = None \<and> completedAt r = None
      | viewed \<Rightarrow>
          inQueueAt r \<noteq> None \<and> viewedAt r \<noteq> None \<and> maintenanceRequestedAt r = None
          \<and> implementingActionsAt r = None \<and> completedAt r = None
      | maintenance_requested \<Rightarrow>
          inQueueAt r \<noteq> None \<and> viewedAt r \<noteq> None \<and> maintenanceRequestedAt r \<noteq> None
          \<and> implementingActionsAt r = None \<and> completedAt r = None
      | implementing_actions \<Rightarrow>
          inQueueAt r \<noteq> None \<and> viewedAt r \<noteq> None \<and> maintenanceRequestedAt r \<noteq> None
          \<and> implementingActionsAt r \<noteq> None \<and> completedAt r = None
      | completed \<Rightarrow>
          inQueueAt r \<noteq> None \<and> viewedAt r \<noteq> None \<and> maintenanceRequestedAt r \<noteq> None
          \<and> implementingActionsAt r \<noteq> None \<and> completedAt r \<noteq> None)"

text \<open>
  A request closed by its tenant: completed, with the timestamps of the stages before
  \<open>completed\<close> set on a prefix of the pipeline that starts at \<open>in_queue\<close>.
\<close>

definition closedShape :: "request \<Rightarrow> bool" where
  "closedShape r =
     (status r = completed \<and> completedAt r \<noteq> None \<and> inQueueAt r \<noteq> None
      \<and> (maintenanceRequestedAt r \<noteq> None \<longrightarrow> viewedAt r \<noteq> None)
      \<and> (implementingActionsAt r \<noteq> None \<longrightarrow> maintenanceRequestedAt r \<noteq> None))"

definition before :: "instant option \<Rightarrow> instant option \<Rightarrow> bool" where
  "before a b =
     (case a of None \<Rightarrow> True
      | Some x \<Rightarrow> (case b of None \<Rightarrow> True | Some y \<Rightarrow> x \<le> y))"

text \<open>The set timestamps are in pipeline order and none is later than the clock \<open>t\<close>.\<close>

definition ordered :: "instant \<Rightarrow> request \<Rightarrow> bool" where
  "ordered t r =
     (before (inQueueAt r) (viewedAt r) \<and> before (inQueueAt r) (maintenanceRequestedAt r)
      \<and> before (inQueueAt r) (implementingActionsAt r) \<and> before (inQueueAt r) (completedAt r)
      \<and> before (viewedAt r) (maintenanceRequestedAt r)
      \<and> before (viewedAt r) (implementingActionsAt r) \<and> before (viewedAt r) (completedAt r)
      \<and> before (maintenanceRequestedAt r) (implementingActionsAt r)
      \<and> before (maintenanceRequestedAt r) (completedAt r)
      \<and> before (implementingActionsAt r) (completedAt r)
      \<and> before (inQueueAt r) (Some t) \<and> before (viewedAt r) (Some t)
      \<and> before (maintenanceRequestedAt r) (Some t)
      \<and> before (implementingActionsAt r) (Some t) \<and> before (completedAt r) (Some t))"

definition tracked :: "instant \<Rightarrow> request \<Rightarrow> bool" where
  "tracked t r = ((exact r \<or> closedShape r) \<and> ordered t r)"

definition all_rows :: "(request \<Rightarrow> bool) \<Rightarrow> db \<Rightarrow> bool" where
  "all_rows P d = (\<forall>i r. d i = Some r \<longrightarrow> P r)"

section \<open>Sample data\<close>

definition tenantA :: user where
  "tenantA = \<lparr> uid = 1, role = tenant \<rparr>"

definition tenantB :: user where
  "tenantB = \<lparr> uid = 2, role = tenant \<rparr>"

definition managerM :: user where
  "managerM = \<lparr> uid = 3, role = manager \<rparr>"

text \<open>A valid body whose priority is not one of the four allowed values.\<close>

definition leakBody :: body where
  "leakBody =
     \<lparr> b_unit = Some ''101'', b_category = Some ''Water leak'',
       b_description = Some ''Water dripping under kitchen sink.'',
       b_phone = Some ''555-123-4567'', b_priority = Some ''urgent'',
       b_preferredWindow1 = Some ''08:00-10:00'', b_preferredWindow2 = None,
       b_accessInstructions = None \<rparr>"

text \<open>The row that \<open>tenantA\<close> gets for \<open>leakBody\<close> at instant 0 under key 1.\<close>

definition newRow :: request where
  "newRow =
     \<lparr> rid = 1, unit_no = ''101'', category = ''Water leak'',
       description = ''Water dripping under kitchen sink.'', phone = ''555-123-4567'',
       priority = ''normal'', preferredWindow1 = ''08:00-10:00'', preferredWindow2 = None,
       accessInstructions = None, tenantId = 1, status = in_queue,
       lastUpdatedByRole = upd_tenant, createdAt = Some 0, inQueueAt = Some 0,
       viewedAt = None, maintenanceRequestedAt = None, implementingActionsAt = None,
       completedAt = None \<rparr>"

text \<open>The same request after the manager has moved it to \<open>viewed\<close> at 1.\<close>

definition viewedRow :: request where
  "viewedRow = newRow\<lparr> status := viewed, lastUpdatedByRole := upd_manager, viewedAt := Some 1 \<rparr>"

text \<open>... and on to \<open>maintenance_requested\<close> at 2.\<close>

definition maintenanceRow :: request where
  "maintenanceRow =
     viewedRow\<lparr> status := maintenance_requested, maintenanceRequestedAt := Some 2 \<rparr>"

text \<open>
  A row written before the stage timestamps were tracked, as the seed script writes its second
  sample request: in \<open>maintenance_requested\<close> with no stage timestamp.
\<close>

definition legacyRow :: request where
  "legacyRow =
     newRow\<lparr> status := maintenance_requested, lastUpdatedByRole := upd_manager,
             inQueueAt := None \<rparr>"

section \<open>Basic facts\<close>

lemma indexOf_statusPipeline:
  "indexOf statusPipeline s =
     (case s of in_queue \<Rightarrow> 0 | viewed \<Rightarrow> 1 | maintenance_requested \<Rightarrow> 2
      | implementing_actions \<Rightarrow> 3 | completed \<Rightarrow> 4)"
  by (cases s) (simp_all add: indexOf_def statusPipeline_def)

lemma decodeStatus_statusName: "decodeStatus (statusName s) = Some s"
  by (cases s) (simp_all add: decodeStatus_def allowedStatusValues_def statusPipeline_def)

lemma falsy_statusName: "\<not> falsy (Some (statusName s))"
  by (cases s) (simp_all add: falsy_def)

text \<open>What a handler can do to the table.\<close>

lemma createRequest_db:
  "snd (createRequest u b now newId dbNow d) = d
   \<or> (newId \<notin> dom d \<and>
       (\<exists>r. snd (createRequest u b now newId dbNow d) = d(newId \<mapsto> r)
            \<and> status r = in_queue \<and> inQueueAt r = Some now \<and> viewedAt r = None
            \<and> maintenanceRequestedAt r = None \<and> implementingActionsAt r = None
            \<and> completedAt r = None))"
  by (auto simp add: createRequest_def Let_def split: option.splits)

lemma advanceStatus_db:
  "snd (advanceStatus u i s now d) = d
   \<or> (\<exists>r st. d i = Some r
         \<and> (st = status r
            \<or> indexOf statusPipeline st = indexOf statusPipeline (status r) + 1)
         \<and> snd (advanceStatus u i s now d) = d(i \<mapsto> statusData st now r))"
  by (auto simp add: advanceStatus_def Let_def split: option.splits)

lemma closeEarly_db:
  "snd (closeEarly u i now d) = d
   \<or> (\<exists>r. d i = Some r \<and> status r \<noteq> completed
         \<and> snd (closeEarly u i now d) = d(i \<mapsto> closeData now r))"
  by (auto simp add: closeEarly_def Let_def split: option.splits)

lemma updatePriority_db:
  "snd (updatePriority u i p d) = d
   \<or> (\<exists>r v. d i = Some r
         \<and> snd (updatePriority u i p d)
             = d(i \<mapsto> r\<lparr> priority := v, lastUpdatedByRole := upd_manager \<rparr>))"
  by (auto simp add: updatePriority_def Let_def split: option.splits)

lemma all_rows_upd: "all_rows P d \<Longrightarrow> P r \<Longrightarrow> all_rows P (d(i \<mapsto> r))"
  by (simp add: all_rows_def)

lemma all_rows_row: "all_rows P d \<Longrightarrow> d i = Some r \<Longrightarrow> P r"
  by (simp add: all_rows_def)

lemma run_preserves:
  assumes "P d" and "\<And>c d. c \<in> set cs \<Longrightarrow> P d \<Longrightarrow> P (snd (perform c d))"
  shows "P (run cs d)"
  using assms by (induction cs arbitrary: d) simp_all

section \<open>The shape of the timestamps\<close>


lemma exact_priority: "exact r \<Longrightarrow> exact (r\<lparr> priority := p, lastUpdatedByRole := x \<rparr>)"
  by (simp add: exact_def split: RequestStatus.splits)

lemma closedShape_priority:
  "closedShape r \<Longrightarrow> closedShape (r\<lparr> priority := p, lastUpdatedByRole := x \<rparr>)"
  by (simp add: closedShape_def)

lemma exact_statusData:
  assumes "exact r"
    and "st = status r \<or> indexOf statusPipeline st = indexOf statusPipeline (status r) + 1"
  shows "exact (statusData st now r)"
  using assms
  by (cases st; cases "status r")
     (auto simp add: indexOf_statusPipeline exact_def statusData_def Let_def)

lemma closedShape_statusData:
  assumes "closedShape r"
    and "st = status r \<or> indexOf statusPipeline st = indexOf statusPipeline (status r) + 1"
  shows "closedShape (statusData st now r)"
  using assms
  by (cases st) (auto simp add: indexOf_statusPipeline closedShape_def statusData_def Let_def)

lemma closedShape_closeData:
  assumes "exact r" and "status r \<noteq> completed"
  shows "closedShape (closeData now r)"
  using assms
  by (cases "status r")
     (auto simp add: indexOf_statusPipeline exact_def closedShape_def closeData_def Let_def)


lemma closedShape_completed: "closedShape r \<Longrightarrow> status r = completed"
  by (simp add: closedShape_def)

section \<open>Invariants along a sequence of calls\<close>

lemma perform_rows:
  assumes rows: "all_rows P d"
    and keep: "\<And>r. P r \<Longrightarrow> Q r"
    and created: "\<And>u b now newId dbNow r. c = Create u b now newId dbNow
        \<Longrightarrow> status r = in_queue \<Longrightarrow> inQueueAt r = Some now \<Longrightarrow> viewedAt r = None
        \<Longrightarrow> maintenanceRequestedAt r = None \<Longrightarrow> implementingActionsAt r = None
        \<Longrightarrow> completedAt r = None \<Longrightarrow> Q r"
    and advanced: "\<And>u i s now r st. c = Advance u i s now \<Longrightarrow> P r
        \<Longrightarrow> st = status r
            \<or> indexOf statusPipeline st = indexOf statusPipeline (status r) + 1
        \<Longrightarrow> Q (statusData st now r)"
    and closed: "\<And>u i now r. c = Close u i now \<Longrightarrow> P r \<Longrightarrow> status r \<noteq> completed
        \<Longrightarrow> Q (closeData now r)"
    and prioritised: "\<And>r v. P r \<Longrightarrow> Q (r\<lparr> priority := v, lastUpdatedByRole := upd_manager \<rparr>)"
  shows "all_rows Q (snd (perform c d))"
proof -
  have base: "all_rows Q d"
    using rows keep by (simp add: all_rows_def)
  show ?thesis
  proof (cases c)
    case (Create u b now newId dbNow)
    from createRequest_db [of u b now newId dbNow d] show ?thesis
    proof
      assume "snd (createRequest u b now newId dbNow d) = d"
      with base Create show ?thesis by simp
    next
      assume "newId \<notin> dom d \<and>
         (\<exists>r. snd (createRequest u b now newId dbNow d) = d(newId \<mapsto> r)
              \<and> status r = in_queue \<and> inQueueAt r = Some now \<and> viewedAt r = None
              \<and> maintenanceRequestedAt r = None \<and> implementingActionsAt r = None
              \<and> completedAt r = None)"
      then obtain r where eq: "snd (createRequest u b now newId dbNow d) = d(newId \<mapsto> r)"
        and new: "status r = in_queue" "inQueueAt r = Some now" "viewedAt r = None"
            "maintenanceRequestedAt r = None" "implementingActionsAt r = None"
            "completedAt r = None"
        by blast
      from created [OF Create new] have "Q r" .
      with base eq Create show ?thesis by (simp add: all_rows_upd)
    qed
  next
    case (Advance u i s now)
    from advanceStatus_db [of u i s now d] show ?thesis
    proof
      assume "snd (advanceStatus u i s now d) = d"
      with base Advance show ?thesis by simp
    next
      assume "\<exists>r st. d i = Some r
           \<and> (st = status r
              \<or> indexOf statusPipeline st = indexOf statusPipeline (status r) + 1)
           \<and> snd (advanceStatus u i s now d) = d(i \<mapsto> statusData st now r)"
      then obtain r st where row: "d i = Some r"
        and legal: "st = status r
              \<or> indexOf statusPipeline st = indexOf statusPipeline (status r) + 1"
        and eq: "snd (advanceStatus u i s now d) = d(i \<mapsto> statusData st now r)"
        by blast
      from advanced [OF Advance all_rows_row [OF rows row] legal]
      have "Q (statusData st now r)" .
      with base eq Advance show ?thesis by (simp add: all_rows_upd)
    qed
  next
    case (Close u i now)
    from closeEarly_db [of u i now d] show ?thesis
    proof
      assume "snd (closeEarly u i now d) = d"
      with base Close show ?thesis by simp
    next
      assume "\<exists>r. d i = Some r \<and> status r \<noteq> completed
           \<and> snd (closeEarly u i now d) = d(i \<mapsto> closeData now r)"
      then obtain r where row: "d i = Some r" and unfinished: "status r \<noteq> completed"
        and eq: "snd (closeEarly u i now d) = d(i \<mapsto> closeData now r)"
        by blast
      from closed [OF Close all_rows_row [OF rows row] unfinished]
      have "Q (closeData now r)" .
      with base eq Close show ?thesis by (simp add: all_rows_upd)
    qed
  next
    case (SetPriority u i p)
    from updatePriority_db [of u i p d] show ?thesis
    proof
      assume "snd (updatePriority u i p d) = d"
      with base SetPriority show ?thesis by simp
    next
      assume "\<exists>r v. d i = Some r
           \<and> snd (updatePriority u i p d)
               = d(i \<mapsto> r\<lparr> priority := v, lastUpdatedByRole := upd_manager \<rparr>)"
      then obtain r v where row: "d i = Some r"
        and eq: "snd (updatePriority u i p d)
               = d(i \<mapsto> r\<lparr> priority := v, lastUpdatedByRole := upd_manager \<rparr>)"
        by blast
      from prioritised [OF all_rows_row [OF rows row]]
      have "Q (r\<lparr> priority := v, lastUpdatedByRole := upd_manager \<rparr>)" .
      with base eq SetPriority show ?thesis by (simp add: all_rows_upd)
    qed
  qed
qed



lemma all_rows_empty: "all_rows P Map.empty"
  by (simp add: all_rows_def)

section \<open>Order of the timestamps\<close>

lemma tracked_later: "tracked t r \<Longrightarrow> t \<le> t' \<Longrightarrow> tracked t' r"
  by (auto simp add: tracked_def ordered_def before_def split: option.splits)

lemma tracked_created:
  "status r = in_queue \<Longrightarrow> inQueueAt r = Some now \<Longrightarrow> viewedAt r = None
   \<Longrightarrow> maintenanceRequestedAt r = None \<Longrightarrow> implementingActionsAt r = None
   \<Longrightarrow> completedAt r = None \<Longrightarrow> tracked now r"
  by (simp add: tracked_def exact_def ordered_def before_def)

lemma tracked_priority:
  "tracked t r \<Longrightarrow> tracked t (r\<lparr> priority := p, lastUpdatedByRole := x \<rparr>)"
  by (auto simp add: tracked_def ordered_def intro: exact_priority closedShape_priority)

lemma ordered_statusData:
  assumes "exact r \<or> closedShape r" and "ordered t r" and "t \<le> now"
    and "st = status r \<or> indexOf statusPipeline st = indexOf statusPipeline (status r) + 1"
  shows "ordered now (statusData st now r)"
  using assms
  apply (cases st; cases "status r")
  apply (simp_all add: indexOf_statusPipeline)
  apply (auto simp add: exact_def closedShape_def ordered_def statusData_def before_def Let_def
              split: option.splits)
  done

lemma ordered_closeData:
  assumes "exact r" and "ordered t r" and "t \<le> now" and "status r \<noteq> completed"
  shows "ordered now (closeData now r)"
  using assms
  apply (cases "status r")
  apply (auto simp add: exact_def ordered_def closeData_def before_def Let_def nullish_def
                indexOf_statusPipeline split: option.splits)
  done

lemma tracked_statusData:
  assumes "tracked t r" and "t \<le> now"
    and "st = status r \<or> indexOf statusPipeline st = indexOf statusPipeline (status r) + 1"
  shows "tracked now (statusData st now r)"
proof -
  from assms(1) have shape: "exact r \<or> closedShape r" and ord: "ordered t r"
    by (simp_all add: tracked_def)
  from shape assms(3) have "exact (statusData st now r) \<or> closedShape (statusData st now r)"
    by (auto intro: exact_statusData closedShape_statusData)
  moreover from shape ord assms(2,3) have "ordered now (statusData st now r)"
    by (rule ordered_statusData)
  ultimately show ?thesis by (simp add: tracked_def)
qed

lemma tracked_closeData:
  assumes "tracked t r" and "t \<le> now" and "status r \<noteq> completed"
  shows "tracked now (closeData now r)"
proof -
  from assms(1,3) have shape: "exact r" and ord: "ordered t r"
    by (auto simp add: tracked_def dest: closedShape_completed)
  from shape assms(3) have "closedShape (closeData now r)"
    by (rule closedShape_closeData)
  moreover from shape ord assms(2,3) have "ordered now (closeData now r)"
    by (rule ordered_closeData)
  ultimately show ?thesis by (simp add: tracked_def)
qed

lemma tracked_perform_clock:
  assumes "all_rows (tracked t) d" and "readsClock c = Some now" and "t \<le> now"
  shows "all_rows (tracked now) (snd (perform c d))"
  using assms(1)
proof (rule perform_rows)
  fix r assume "tracked t r"
  then show "tracked now r" using assms(3) by (rule tracked_later)
next
  fix r v assume "tracked t r"
  then have "tracked now r" using assms(3) by (rule tracked_later)
  then show "tracked now (r\<lparr> priority := v, lastUpdatedByRole := upd_manager \<rparr>)"
    by (rule tracked_priority)
qed (use assms(2,3) in \<open>auto intro: tracked_created tracked_statusData tracked_closeData\<close>)

lemma tracked_perform_noclock:
  assumes "all_rows (tracked t) d" and "readsClock c = None"
  shows "all_rows (tracked t) (snd (perform c d))"
  using assms(1)
  by (rule perform_rows) (use assms(2) in \<open>auto intro: tracked_priority\<close>)

lemma tracked_run:
  "all_rows (tracked t) d \<Longrightarrow> chronological t cs \<Longrightarrow> \<exists>t'. all_rows (tracked t') (run cs d)"
proof (induction cs arbitrary: t d)
  case Nil
  then show ?case by auto
next
  case (Cons c cs)
  show ?case
  proof (cases "readsClock c")
    case None
    with Cons.prems have "chronological t cs" by simp
    from Cons.IH [OF tracked_perform_noclock [OF Cons.prems(1) None] this]
    show ?thesis by simp
  next
    case (Some now)
    with Cons.prems have le: "t \<le> now" and rest: "chronological now cs" by simp_all
    from Cons.IH [OF tracked_perform_clock [OF Cons.prems(1) Some le] rest]
    show ?thesis by simp
  qed
qed

section \<open>Evaluating the sample data\<close>

lemmas sample_defs = tenantA_def tenantB_def managerM_def leakBody_def newRow_def
  viewedRow_def maintenanceRow_def legacyRow_def

lemmas eval_defs = createRequest_def closeEarly_def closeData_def advanceStatus_def
  statusData_def updatePriority_def ensureTenant_def ensureManager_def falsy_def
  prioritySafe_def allowedPriorities_def allowedWindowOptions_def decodeStatus_def
  allowedStatusValues_def statusPipeline_def indexOf_def nullish_def Let_def

section \<open>Closing early\<close>

text \<open>
  The spec's scenario of a tenant closing a request that is in \<open>maintenance_requested\<close>:
  the handler completes the request and leaves \<open>implementingActionsAt\<close> unset, where the
  spec's wording sets it to the closing instant.
\<close>

theorem closeEarly_skipped_counterexample:
  "status maintenanceRow = maintenance_requested
   \<and> maintenanceRequestedAt maintenanceRow = Some 2
   \<and> implementingActionsAt maintenanceRow = None \<and> completedAt maintenanceRow = None
   \<and> closeEarly (Some tenantA) 1 3 [1 \<mapsto> maintenanceRow]
       = (Inr (maintenanceRow\<lparr> status := completed, lastUpdatedByRole := upd_tenant,
                               completedAt := Some 3 \<rparr>),
          [1 \<mapsto> maintenanceRow\<lparr> status := completed, lastUpdatedByRole := upd_tenant,
                                 completedAt := Some 3 \<rparr>])
   \<and> implementingActionsAt (maintenanceRow\<lparr> status := completed,
         lastUpdatedByRole := upd_tenant, completedAt := Some 3 \<rparr>) \<noteq> Some 3"
  by (simp add: closeEarly_def closeData_def ensureTenant_def maintenanceRow_def
        viewedRow_def newRow_def tenantA_def indexOf_def statusPipeline_def nullish_def Let_def)

text \<open>
  C1, as amended. For a request that is not completed, \<open>closeEarly\<close> by the owning tenant
  sets the status to \<open>completed\<close>, \<open>lastUpdatedByRole\<close> to tenant and \<open>completedAt\<close> to the
  closing instant unless it was set. The timestamp of every stage strictly between the current
  status and \<open>completed\<close> is left exactly as it was. The timestamp of every stage up to
  the current status is kept if set and back-filled otherwise (\<open>inQueueAt\<close> to \<open>createdAt\<close>, or
  the closing instant without one; the others to the closing instant). In the scenario of a
  request in \<open>maintenance_requested\<close> with \<open>maintenanceRequestedAt\<close> set and
  \<open>implementingActionsAt\<close> and \<open>completedAt\<close> unset, \<open>implementingActionsAt\<close> stays unset,
  \<open>completedAt\<close> is the closing instant and \<open>maintenanceRequestedAt\<close> is unchanged.
\<close>

theorem closeEarly_effect:
  assumes "ensureTenant u = Some usr" and "d i = Some r" and "tenantId r = uid usr"
    and "status r \<noteq> completed"
  shows "\<exists>r'. closeEarly u i now d = (Inr r', d(i \<mapsto> r'))
     \<and> status r' = completed \<and> lastUpdatedByRole r' = upd_tenant
     \<and> completedAt r' = Some (nullish (completedAt r) now)
     \<and> (\<forall>s. indexOf statusPipeline (status r) < indexOf statusPipeline s
              \<and> indexOf statusPipeline s < indexOf statusPipeline completed
            \<longrightarrow> stageAt s r' = stageAt s r)
     \<and> (\<forall>s. indexOf statusPipeline s \<le> indexOf statusPipeline (status r)
            \<longrightarrow> stageAt s r'
                = Some (nullish (stageAt s r)
                         (if s = in_queue then nullish (createdAt r) now else now)))
     \<and> (status r = maintenance_requested \<and> maintenanceRequestedAt r = Some requestedAt
          \<and> implementingActionsAt r = None \<and> completedAt r = None
        \<longrightarrow> implementingActionsAt r' = None \<and> completedAt r' = Some now
            \<and> maintenanceRequestedAt r' = Some requestedAt)"
proof -
  let ?r' = "closeData now r"
  from assms have call: "closeEarly u i now d = (Inr ?r', d(i \<mapsto> ?r'))"
    by (simp add: closeEarly_def Let_def)
  have st: "status ?r' = completed" and by_: "lastUpdatedByRole ?r' = upd_tenant"
    and done_: "completedAt ?r' = Some (nullish (completedAt r) now)"
    by (simp_all add: closeData_def Let_def)
  have skipped: "stageAt s ?r' = stageAt s r"
    if "indexOf statusPipeline (status r) < indexOf statusPipeline s"
      and "indexOf statusPipeline s < indexOf statusPipeline completed" for s
    using that
    by (cases s; cases "status r")
       (simp_all add: indexOf_statusPipeline closeData_def Let_def)
  have reached: "stageAt s ?r'
        = Some (nullish (stageAt s r) (if s = in_queue then nullish (createdAt r) now else now))"
    if "indexOf statusPipeline s \<le> indexOf statusPipeline (status r)" for s
    using that assms(4)
    by (cases s; cases "status r")
       (auto simp add: indexOf_statusPipeline closeData_def Let_def nullish_def
          split: option.splits)
  have scenario: "implementingActionsAt ?r' = None \<and> completedAt ?r' = Some now
            \<and> maintenanceRequestedAt ?r' = Some requestedAt"
    if "status r = maintenance_requested \<and> maintenanceRequestedAt r = Some requestedAt
          \<and> implementingActionsAt r = None \<and> completedAt r = None"
    using that
    by (simp add: indexOf_statusPipeline closeData_def Let_def nullish_def)
  from call st by_ done_ skipped reached scenario show ?thesis by blast
qed

theorem closeEarly_effect_witness:
  "ensureTenant (Some tenantA) = Some tenantA \<and> tenantId maintenanceRow = uid tenantA
   \<and> status maintenanceRow \<noteq> completed
   \<and> (\<exists>r'. closeEarly (Some tenantA) 1 3 [1 \<mapsto> maintenanceRow] = (Inr r', [1 \<mapsto> r'])
          \<and> status r' = completed \<and> lastUpdatedByRole r' = upd_tenant
          \<and> implementingActionsAt r' = None \<and> completedAt r' = Some 3
          \<and> maintenanceRequestedAt r' = Some 2)"
proof -
  have h1: "ensureTenant (Some tenantA) = Some tenantA"
    by (simp add: ensureTenant_def tenantA_def)
  have h2: "[1 \<mapsto> maintenanceRow] 1 = Some maintenanceRow" by simp
  have h3: "tenantId maintenanceRow = uid tenantA" by (simp add: sample_defs)
  have h4: "status maintenanceRow \<noteq> completed" by (simp add: sample_defs)
  have h5: "status maintenanceRow = maintenance_requested
     \<and> maintenanceRequestedAt maintenanceRow = Some 2
     \<and> implementingActionsAt maintenanceRow = None \<and> completedAt maintenanceRow = None"
    by (simp add: sample_defs)
  from closeEarly_effect [where d = "[1 \<mapsto> maintenanceRow]" and i = 1 and now = 3
      and requestedAt = 2, OF h1 h2 h3 h4] h5
  obtain r' where "closeEarly (Some tenantA) 1 3 [1 \<mapsto> maintenanceRow]
        = (Inr r', [1 \<mapsto> maintenanceRow, 1 \<mapsto> r'])"
    and "status r' = completed" "lastUpdatedByRole r' = upd_tenant"
    and "implementingActionsAt r' = None \<and> completedAt r' = Some 3
            \<and> maintenanceRequestedAt r' = Some 2"
    by blast
  with h1 h3 h4 show ?thesis by simp
qed

section \<open>Status and timestamps agree\<close>




section \<open>Moving one stage forward\<close>

text \<open>
  A row that predates the stage timestamps and is in \<open>maintenance_requested\<close>: the legal move
  to \<open>implementing_actions\<close> back-fills \<open>inQueueAt\<close> only, and \<open>viewedAt\<close> stays unset.
\<close>

theorem advanceStatus_backfill_counterexample:
  "indexOf statusPipeline implementing_actions
     = indexOf statusPipeline (status legacyRow) + 1
   \<and> indexOf statusPipeline viewed < indexOf statusPipeline implementing_actions
   \<and> advanceStatus (Some managerM) 1 (Some ''implementing_actions'') 9 [1 \<mapsto> legacyRow]
       = (Inr (legacyRow\<lparr> status := implementing_actions, inQueueAt := Some 0,
                          implementingActionsAt := Some 9 \<rparr>),
          [1 \<mapsto> legacyRow\<lparr> status := implementing_actions, inQueueAt := Some 0,
                            implementingActionsAt := Some 9 \<rparr>])
   \<and> stageAt viewed (legacyRow\<lparr> status := implementing_actions, inQueueAt := Some 0,
                                implementingActionsAt := Some 9 \<rparr>) = None"
  by (simp add: eval_defs sample_defs)

text \<open>
  C3, as amended. A legal status update (the requested status one stage ahead) by a manager
  sets the status to the target and \<open>lastUpdatedByRole\<close> to manager; \<open>inQueueAt\<close> is kept if set
  and back-filled to \<open>createdAt\<close> (or the current instant without one) otherwise; the target
  stage's timestamp is kept if set and is the current instant otherwise; every other stage
  timestamp is left exactly as it was. Hence, when every stage before the target had its
  timestamp set, they all still have it, unchanged. A request created at an instant in
  \<open>in_queue\<close> ends in \<open>viewed\<close> with \<open>viewedAt\<close> the current instant and \<open>inQueueAt\<close> unchanged.
\<close>

theorem advanceStatus_legal:
  assumes "ensureManager u = Some usr" and "d i = Some r"
    and "indexOf statusPipeline target = indexOf statusPipeline (status r) + 1"
  shows "\<exists>r'. advanceStatus u i (Some (statusName target)) now d = (Inr r', d(i \<mapsto> r'))
     \<and> status r' = target \<and> lastUpdatedByRole r' = upd_manager
     \<and> inQueueAt r' = Some (nullish (inQueueAt r) (nullish (createdAt r) now))
     \<and> stageAt target r' = Some (nullish (stageAt target r) now)
     \<and> (\<forall>s. s \<noteq> in_queue \<and> s \<noteq> target \<longrightarrow> stageAt s r' = stageAt s r)
     \<and> ((\<forall>s. indexOf statusPipeline s < indexOf statusPipeline target
               \<longrightarrow> stageAt s r \<noteq> None)
        \<longrightarrow> (\<forall>s. indexOf statusPipeline s < indexOf statusPipeline target
               \<longrightarrow> stageAt s r' = stageAt s r \<and> stageAt s r' \<noteq> None))
     \<and> (status r = in_queue \<and> inQueueAt r = Some createdInstant \<and> viewedAt r = None
        \<longrightarrow> status r' = viewed \<and> viewedAt r' = Some now
            \<and> inQueueAt r' = Some createdInstant)"
proof -
  let ?r' = "statusData target now r"
  from assms(3) have differs: "target \<noteq> status r" by auto
  from assms have call:
    "advanceStatus u i (Some (statusName target)) now d = (Inr ?r', d(i \<mapsto> ?r'))"
    by (simp add: advanceStatus_def falsy_statusName decodeStatus_statusName Let_def)
  have st: "status ?r' = target" and by_: "lastUpdatedByRole ?r' = upd_manager"
    by (cases target; simp add: statusData_def Let_def)+
  have first: "inQueueAt ?r' = Some (nullish (inQueueAt r) (nullish (createdAt r) now))"
    using assms(3)
    by (cases target)
       (auto simp add: statusData_def Let_def nullish_def indexOf_statusPipeline
          split: option.splits RequestStatus.splits)
  have own: "stageAt target ?r' = Some (nullish (stageAt target r) now)"
    using assms(3)
    by (cases target)
       (auto simp add: statusData_def Let_def nullish_def indexOf_statusPipeline
          split: option.splits RequestStatus.splits)
  have others: "stageAt s ?r' = stageAt s r" if "s \<noteq> in_queue \<and> s \<noteq> target" for s
    using that by (cases target; cases s) (simp_all add: statusData_def Let_def)
  have earlier: "stageAt s ?r' = stageAt s r \<and> stageAt s ?r' \<noteq> None"
    if "\<forall>s. indexOf statusPipeline s < indexOf statusPipeline target \<longrightarrow> stageAt s r \<noteq> None"
      and "indexOf statusPipeline s < indexOf statusPipeline target" for s
  proof -
    from that have isset: "stageAt s r \<noteq> None" by blast
    from that(2) have "s \<noteq> target" by auto
    show ?thesis
    proof (cases "s = in_queue")
      case True
      with isset first show ?thesis by (auto simp add: nullish_def)
    next
      case False
      with \<open>s \<noteq> target\<close> others isset show ?thesis by simp
    qed
  qed
  have scenario: "status ?r' = viewed \<and> viewedAt ?r' = Some now
            \<and> inQueueAt ?r' = Some createdInstant"
    if "status r = in_queue \<and> inQueueAt r = Some createdInstant \<and> viewedAt r = None"
  proof -
    from that assms(3) have "target = viewed"
      by (cases target) (simp_all add: indexOf_statusPipeline)
    with that show ?thesis by (simp add: statusData_def Let_def)
  qed
  from call st by_ first own others earlier scenario show ?thesis by blast
qed

theorem advanceStatus_legal_witness:
  "ensureManager (Some managerM) = Some managerM
   \<and> indexOf statusPipeline viewed = indexOf statusPipeline (status newRow) + 1
   \<and> inQueueAt newRow = Some 0
   \<and> (\<exists>r'. advanceStatus (Some managerM) 1 (Some ''viewed'') 1 [1 \<mapsto> newRow]
             = (Inr r', [1 \<mapsto> r'])
          \<and> status r' = viewed \<and> viewedAt r' = Some 1 \<and> inQueueAt r' = Some 0)"
proof -
  have h1: "ensureManager (Some managerM) = Some managerM"
    by (simp add: ensureManager_def managerM_def)
  have h2: "[1 \<mapsto> newRow] 1 = Some newRow" by simp
  have h3: "indexOf statusPipeline viewed = indexOf statusPipeline (status newRow) + 1"
    by (simp add: indexOf_statusPipeline newRow_def)
  have h4: "status newRow = in_queue \<and> inQueueAt newRow = Some 0 \<and> viewedAt newRow = None"
    by (simp add: newRow_def)
  from advanceStatus_legal [where d = "[1 \<mapsto> newRow]" and i = 1 and now = 1
      and createdInstant = 0, OF h1 h2 h3] h4
  obtain r' where "advanceStatus (Some managerM) 1 (Some (statusName viewed)) 1 [1 \<mapsto> newRow]
        = (Inr r', [1 \<mapsto> newRow, 1 \<mapsto> r'])"
    and "status r' = viewed \<and> viewedAt r' = Some 1 \<and> inQueueAt r' = Some 0"
    by blast
  with h1 h3 h4 show ?thesis by simp
qed

section \<open>Out-of-order updates\<close>

text \<open>
  C4. For an existing request and a requested status of the enumeration that differs from the
  current status and is not exactly one stage ahead, the status update of a manager answers
  with the out-of-order error and the table, hence the request, is unmodified.
\<close>

theorem advanceStatus_out_of_order:
  assumes "ensureManager u = Some usr" and "d i = Some r"
    and "requested \<noteq> status r"
    and "indexOf statusPipeline requested \<noteq> indexOf statusPipeline (status r) + 1"
  shows "advanceStatus u i (Some (statusName requested)) now d
           = (Inl OutOfOrderTransitionError, d)"
  using assms
  by (simp add: advanceStatus_def falsy_statusName decodeStatus_statusName)

theorem advanceStatus_out_of_order_witness:
  "ensureManager (Some managerM) = Some managerM \<and> completed \<noteq> status viewedRow
   \<and> indexOf statusPipeline completed \<noteq> indexOf statusPipeline (status viewedRow) + 1
   \<and> advanceStatus (Some managerM) 1 (Some ''completed'') 2 [1 \<mapsto> viewedRow]
        = (Inl OutOfOrderTransitionError, [1 \<mapsto> viewedRow])"
proof -
  have h1: "ensureManager (Some managerM) = Some managerM"
    by (simp add: ensureManager_def managerM_def)
  have h2: "[1 \<mapsto> viewedRow] 1 = Some viewedRow" by simp
  have h3: "completed \<noteq> status viewedRow" by (simp add: viewedRow_def)
  have h4: "indexOf statusPipeline completed \<noteq> indexOf statusPipeline (status viewedRow) + 1"
    by (simp add: indexOf_statusPipeline viewedRow_def)
  from advanceStatus_out_of_order [where d = "[1 \<mapsto> viewedRow]" and i = 1 and now = 2,
      OF h1 h2 h3 h4] h1 h3 h4
  show ?thesis by simp
qed

section \<open>Non-decreasing timestamps\<close>

text \<open>
  C5. After any sequence of creations, status updates, early closes and priority updates on an
  empty table, whose calls read a clock that does not run backwards, any two set stage
  timestamps of a request are in pipeline order: the one of the earlier stage is not later.
\<close>

theorem timestamps_nondecreasing:
  assumes "chronological t cs" and "run cs Map.empty i = Some r"
    and "indexOf statusPipeline s < indexOf statusPipeline s'"
    and "stageAt s r = Some x" and "stageAt s' r = Some y"
  shows "x \<le> y"
proof -
  from tracked_run [OF all_rows_empty assms(1)]
  obtain t' where "all_rows (tracked t') (run cs Map.empty)" ..
  from all_rows_row [OF this assms(2)] have "ordered t' r"
    by (simp add: tracked_def)
  with assms(3-5) show ?thesis
    by (cases s; cases s') (simp_all add: indexOf_statusPipeline ordered_def before_def)
qed

theorem timestamps_nondecreasing_witness:
  "chronological 0 [Create (Some tenantA) leakBody 0 1 0,
                    Advance (Some managerM) 1 (Some ''viewed'') 1]
   \<and> run [Create (Some tenantA) leakBody 0 1 0,
           Advance (Some managerM) 1 (Some ''viewed'') 1] Map.empty 1 = Some viewedRow
   \<and> indexOf statusPipeline in_queue < indexOf statusPipeline viewed
   \<and> stageAt in_queue viewedRow = Some 0 \<and> stageAt viewed viewedRow = Some 1
   \<and> (0::int) \<le> 1"
proof -
  let ?cs = "[Create (Some tenantA) leakBody 0 1 0,
              Advance (Some managerM) 1 (Some ''viewed'') 1]"
  have h1: "chronological 0 ?cs" by simp
  have h2: "run ?cs Map.empty 1 = Some viewedRow"
    by (simp add: eval_defs sample_defs)
  have h3: "indexOf statusPipeline in_queue < indexOf statusPipeline viewed"
    by (simp add: indexOf_statusPipeline)
  have h4: "stageAt in_queue viewedRow = Some 0" by (simp add: sample_defs)
  have h5: "stageAt viewed viewedRow = Some 1" by (simp add: sample_defs)
  from timestamps_nondecreasing [OF h1 h2 h3 h4 h5] h1 h2 h3 h4 h5
  show ?thesis by simp
qed

section \<open>Set timestamps are never overwritten\<close>

lemma statusData_keeps:
  "stageAt s r = Some v \<Longrightarrow> stageAt s (statusData st now r) = Some v"
  by (cases st; cases s) (auto simp add: statusData_def Let_def)

lemma closeData_keeps:
  "stageAt s r = Some v \<Longrightarrow> stageAt s (closeData now r) = Some v"
  by (cases s) (auto simp add: closeData_def Let_def nullish_def)

lemma priority_keeps:
  "stageAt s (r\<lparr> priority := p, lastUpdatedByRole := x \<rparr>) = stageAt s r"
  by (cases s) simp_all

lemma perform_keeps:
  assumes "\<exists>r. d i = Some r \<and> stageAt s r = Some v"
  shows "\<exists>r. snd (perform c d) i = Some r \<and> stageAt s r = Some v"
proof (cases c)
  case (Create u b now newId dbNow)
  from createRequest_db [of u b now newId dbNow d] assms Create show ?thesis
    by (cases "newId = i") auto
next
  case (Advance u j st now)
  from advanceStatus_db [of u j st now d] assms Advance show ?thesis
    by (cases "j = i") (auto simp add: statusData_keeps)
next
  case (Close u j now)
  from closeEarly_db [of u j now d] assms Close show ?thesis
    by (cases "j = i") (auto simp add: closeData_keeps)
next
  case (SetPriority u j p)
  from updatePriority_db [of u j p d] assms SetPriority show ?thesis
    by (cases "j = i") (auto simp add: priority_keeps)
qed

text \<open>
  C6. A stage timestamp that is set keeps its value through every later sequence of calls:
  no status update and no early close (and no creation or priority update either) changes or
  clears it, and the row stays in the table.
\<close>

theorem timestamps_immutable:
  assumes "d i = Some r" and "stageAt s r = Some v"
  shows "\<exists>r'. run cs d i = Some r' \<and> stageAt s r' = Some v"
proof -
  from assms have start: "\<exists>r. d i = Some r \<and> stageAt s r = Some v" by simp
  show ?thesis
    by (rule run_preserves [where P = "\<lambda>d. \<exists>r. d i = Some r \<and> stageAt s r = Some v"])
       (use start in \<open>simp_all add: perform_keeps\<close>)
qed

theorem timestamps_immutable_witness:
  "[1 \<mapsto> viewedRow] 1 = Some viewedRow \<and> stageAt viewed viewedRow = Some 1
   \<and> (\<exists>r'. run [Advance (Some managerM) 1 (Some ''maintenance_requested'') 2,
                 Advance (Some managerM) 1 (Some ''viewed'') 3,
                 Close (Some tenantA) 1 4, Close (Some tenantA) 1 5,
                 Advance (Some managerM) 1 (Some ''viewed'') 6]
                [1 \<mapsto> viewedRow] 1 = Some r'
          \<and> stageAt viewed r' = Some 1)"
proof -
  have h1: "[1 \<mapsto> viewedRow] 1 = Some viewedRow" by simp
  have h2: "stageAt viewed viewedRow = Some 1" by (simp add: sample_defs)
  from timestamps_immutable [where d = "[1 \<mapsto> viewedRow]" and i = 1
      and cs = "[Advance (Some managerM) 1 (Some ''maintenance_requested'') 2,
                 Advance (Some managerM) 1 (Some ''viewed'') 3,
                 Close (Some tenantA) 1 4, Close (Some tenantA) 1 5,
                 Advance (Some managerM) 1 (Some ''viewed'') 6]", OF h1 h2] h1 h2
  show ?thesis by blast
qed

section \<open>Confirming the current status\<close>




section \<open>Closing twice\<close>

lemma closeData_completed: "status (closeData now r) = completed"
  by (simp add: closeData_def Let_def)

lemma closeData_tenantId: "tenantId (closeData now r) = tenantId r"
  by (simp add: closeData_def Let_def)

text \<open>
  C8. \<open>closeEarly\<close> on a completed request of the caller returns it and leaves the table as it is;
  and a second \<open>closeEarly\<close> in a row, at any later instant, gives the same response and the same
  table as the first one alone.
\<close>

theorem closeEarly_idempotent:
  "(ensureTenant u = Some usr \<and> d i = Some r \<and> tenantId r = uid usr \<and> status r = completed
      \<longrightarrow> closeEarly u i now d = (Inr r, d))
   \<and> closeEarly u i now' (snd (closeEarly u i now d)) = closeEarly u i now d"
proof
  show "ensureTenant u = Some usr \<and> d i = Some r \<and> tenantId r = uid usr
      \<and> status r = completed \<longrightarrow> closeEarly u i now d = (Inr r, d)"
    by (simp add: closeEarly_def)
next
  show "closeEarly u i now' (snd (closeEarly u i now d)) = closeEarly u i now d"
  proof (cases "ensureTenant u")
    case None
    then show ?thesis by (simp add: closeEarly_def)
  next
    case (Some usr)
    show ?thesis
    proof (cases "d i")
      case None
      with Some show ?thesis by (simp add: closeEarly_def)
    next
      case (Some existing)
      with \<open>ensureTenant u = Some usr\<close> show ?thesis
        by (simp add: closeEarly_def Let_def closeData_completed closeData_tenantId)
    qed
  qed
qed

theorem closeEarly_idempotent_witness:
  "ensureTenant (Some tenantA) = Some tenantA
   \<and> tenantId (newRow\<lparr> status := completed, completedAt := Some 5 \<rparr>) = uid tenantA
   \<and> closeEarly (Some tenantA) 1 8 [1 \<mapsto> newRow\<lparr> status := completed, completedAt := Some 5 \<rparr>]
       = (Inr (newRow\<lparr> status := completed, completedAt := Some 5 \<rparr>),
          [1 \<mapsto> newRow\<lparr> status := completed, completedAt := Some 5 \<rparr>])
   \<and> closeEarly (Some tenantA) 1 8 (snd (closeEarly (Some tenantA) 1 5 [1 \<mapsto> newRow]))
       = closeEarly (Some tenantA) 1 5 [1 \<mapsto> newRow]"
proof -
  let ?done = "newRow\<lparr> status := completed, completedAt := Some 5 \<rparr>"
  have h1: "ensureTenant (Some tenantA) = Some tenantA"
    by (simp add: ensureTenant_def tenantA_def)
  have h2: "[1 \<mapsto> ?done] 1 = Some ?done" by simp
  have h3: "tenantId ?done = uid tenantA" by (simp add: sample_defs)
  have h4: "status ?done = completed" by simp
  from closeEarly_idempotent [where u = "Some tenantA" and usr = tenantA
      and d = "[1 \<mapsto> ?done]" and i = 1 and r = ?done and now = 8]
    h1 h2 h3 h4
  have first: "closeEarly (Some tenantA) 1 8 [1 \<mapsto> ?done] = (Inr ?done, [1 \<mapsto> ?done])"
    by blast
  from closeEarly_idempotent [where u = "Some tenantA" and d = "[1 \<mapsto> newRow]" and i = 1
      and now = 5 and now' = 8]
  have second: "closeEarly (Some tenantA) 1 8 (snd (closeEarly (Some tenantA) 1 5 [1 \<mapsto> newRow]))
       = closeEarly (Some tenantA) 1 5 [1 \<mapsto> newRow]"
    by blast
  from h1 h3 first second show ?thesis by simp
qed

section \<open>Closing the request of another tenant\<close>

text \<open>
  A tenant who closes the request of another tenant gets the 404 response, which is not a
  403.
\<close>

theorem closeEarly_not_owner_counterexample:
  "ensureTenant (Some tenantB) = Some tenantB \<and> tenantId newRow \<noteq> uid tenantB
   \<and> closeEarly (Some tenantB) 1 5 [1 \<mapsto> newRow] = (Inl NotFoundError, [1 \<mapsto> newRow])
   \<and> \<not> isForbiddenError (fst (closeEarly (Some tenantB) 1 5 [1 \<mapsto> newRow]))"
  by (simp add: eval_defs sample_defs isForbiddenError_def)

text \<open>
  C9, as amended. For an existing request and a tenant who does not own it, \<open>closeEarly\<close> fails
  with the not-found response (status 404, not 403), the same response as for an id that is
  not in the table, and the table is left unchanged.
\<close>

theorem closeEarly_not_owner:
  assumes "ensureTenant u = Some usr" and "d i = Some r" and "tenantId r \<noteq> uid usr"
  shows "closeEarly u i now d = (Inl NotFoundError, d)
     \<and> httpStatus NotFoundError = 404
     \<and> \<not> isForbiddenError (fst (closeEarly u i now d))
     \<and> (d j = None \<longrightarrow> fst (closeEarly u j now d) = fst (closeEarly u i now d))"
  using assms by (simp add: closeEarly_def isForbiddenError_def)

theorem closeEarly_not_owner_witness:
  "ensureTenant (Some tenantB) = Some tenantB \<and> tenantId newRow \<noteq> uid tenantB
   \<and> closeEarly (Some tenantB) 1 5 [1 \<mapsto> newRow] = (Inl NotFoundError, [1 \<mapsto> newRow])
   \<and> fst (closeEarly (Some tenantB) 2 5 [1 \<mapsto> newRow])
       = fst (closeEarly (Some tenantB) 1 5 [1 \<mapsto> newRow])"
proof -
  have h1: "ensureTenant (Some tenantB) = Some tenantB"
    by (simp add: ensureTenant_def tenantB_def)
  have h2: "[1 \<mapsto> newRow] 1 = Some newRow" by simp
  have h3: "tenantId newRow \<noteq> uid tenantB" by (simp add: sample_defs)
  have h4: "[(1::nat) \<mapsto> newRow] 2 = None" by simp
  from closeEarly_not_owner [where d = "[1 \<mapsto> newRow]" and i = 1 and j = 2 and now = 5,
      OF h1 h2 h3] h4 h1 h3
  show ?thesis by simp
qed

section \<open>Priority at creation\<close>



end
